theory Spec2Isabelle
  imports Main "HOL-Library.Sublist"
begin

section \<open>The reader module: pagination list and navigation\<close>

text \<open>
  The reader module keeps the current page of a paginated document, builds the list of
  page numbers shown in the pagination strip (\<^verbatim>\<open>_getPageList\<close>), and moves
  between pages (\<^verbatim>\<open>gotoPage\<close>, \<^verbatim>\<open>gotoPageInputField\<close>,
  \<^verbatim>\<open>gotoLine\<close>).

  Numbers. Page numbers, line numbers and lengths are JavaScript numbers that hold
  integers; they are modelled as \<^typ>\<open>int\<close>, on which the source's arithmetic is exact
  (the numbers of a document stay far below \<open>2\<^sup>5\<^sup>3\<close>, and its page lists far below the
  longest array the language allows). A value that may also be \<^verbatim>\<open>NaN\<close> (a
  \<^verbatim>\<open>parseInt\<close> result) has type \<open>number\<close> below.
\<close>

subsection \<open>The page list\<close>

text \<open>
  \<^verbatim>\<open>throw new Error("maxLength must be at least 5")\<close> is the only
  \<^verbatim>\<open>throw\<close> statement of the module.
\<close>

datatype error = InvalidArgument

text \<open>
  \<^verbatim>\<open>const range = (start, end) => Array.from({ length: end - start + 1 }, (_, i) => i + start)\<close>.
  A length that is not positive gives the empty array.
\<close>

definition range_arr :: "int \<Rightarrow> int \<Rightarrow> int list" where
  "range_arr start end' = map (\<lambda>i. int i + start) [0..<nat (end' - start + 1)]"

text \<open>
  The three widths are constants of one call; each depends on \<open>maxLength\<close> alone.
  \<^verbatim>\<open>Math.floor(x / 2)\<close> on an integer \<open>x\<close> is \<open>x div 2\<close>.
\<close>

definition sideWidth :: "int \<Rightarrow> int" where
  "sideWidth maxLength = (if maxLength < 9 then 1 else 2)"

definition leftWidth :: "int \<Rightarrow> int" where
  "leftWidth maxLength = (maxLength - sideWidth maxLength * 2 - 3) div 2"

definition rightWidth :: "int \<Rightarrow> int" where
  "rightWidth maxLength = (maxLength - sideWidth maxLength * 2 - 2) div 2"

text \<open>
  \<^verbatim>\<open>_getPageList(totalPages, currentPage, maxLength, duringProcessing = false)\<close>,
  which the specification calls \<open>computePageList\<close>. The result is an array of page
  numbers in which \<open>0\<close> stands for a gap.
\<close>

definition getPageList :: "int \<Rightarrow> int \<Rightarrow> int \<Rightarrow> bool \<Rightarrow> error + int list" where
  "getPageList totalPages currentPage maxLength duringProcessing =
    (if maxLength < 5 then Inl InvalidArgument
     else if totalPages \<le> maxLength then Inr (range_arr 1 totalPages)
     else if currentPage \<le> maxLength - sideWidth maxLength - 1 - rightWidth maxLength then
       (let pageList =
              range_arr 1 (maxLength - sideWidth maxLength - 1) @ [0] @
              range_arr (totalPages - sideWidth maxLength + 1) totalPages;
            pageList_duringProcessing =
              range_arr 1 (maxLength - sideWidth maxLength - 1) @ [0]
        in Inr (if duringProcessing then pageList_duringProcessing else pageList))
     else if currentPage \<ge> totalPages - sideWidth maxLength - 1 - rightWidth maxLength then
       (let pageList =
              range_arr 1 (sideWidth maxLength) @ [0] @
              range_arr (totalPages - sideWidth maxLength - 1 - rightWidth maxLength
                           - leftWidth maxLength) totalPages;
            pageList_duringProcessing = range_arr 1 (sideWidth maxLength) @ [0]
        in Inr (if duringProcessing then pageList_duringProcessing else pageList))
     else
       (let pageList =
              range_arr 1 (sideWidth maxLength) @ [0] @
              range_arr (currentPage - leftWidth maxLength) (currentPage + rightWidth maxLength) @
              [0] @
              range_arr (totalPages - sideWidth maxLength + 1) totalPages;
            pageList_duringProcessing =
              range_arr 1 (sideWidth maxLength) @ [0] @
              range_arr (currentPage - leftWidth maxLength) (currentPage + rightWidth maxLength) @
              [0]
        in Inr (if duringProcessing then pageList_duringProcessing else pageList)))"

subsection \<open>The shared variables\<close>

text \<open>
  A number that may be \<^verbatim>\<open>NaN\<close>: what \<^verbatim>\<open>parseInt\<close> returns, and what
  \<^verbatim>\<open>gotoPage\<close> receives from its callers in the module
  (\<^verbatim>\<open>CURRENT_PAGE - 1\<close>, \<^verbatim>\<open>CURRENT_PAGE + 1\<close>,
  \<^verbatim>\<open>parseInt(e.target.innerHTML)\<close>, \<^verbatim>\<open>needToGoPage\<close>).
\<close>

datatype number = NaN | Num int

text \<open>
  An element found by \<^verbatim>\<open>CONFIG.DOM_ELEMENT.GET_LINE\<close>. \<^verbatim>\<open>gotoLine\<close> reads
  its tag name, to choose how to scroll to it. \<open>scrollFails\<close> says that a DOM call
  made on the element inside the \<^verbatim>\<open>try\<close> block of \<^verbatim>\<open>gotoLine\<close>
  throws, which is what its \<^verbatim>\<open>catch\<close> clause handles.
\<close>

record element =
  tagName :: string
  scrollFails :: bool

text \<open>
  \<^verbatim>\<open>CONFIG.VARS\<close> and what else the navigation functions read, as one state.
  \<^item> \<open>ui_numPaginationItems\<close> is
    \<^verbatim>\<open>parseInt(CONFIG.RUNTIME_VARS.STYLE.ui_numPaginationItems)\<close>, the number of
    items of the pagination strip; the configuration is not among the sources, and the
    style variable is taken to hold an integer.
  \<^item> \<open>GET_LINE\<close> is the lookup of the element of a line in the rendered page, as
    \<^verbatim>\<open>gotoLine\<close> finds it when it makes the lookup.
  \<^item> \<open>history\<close> is the sequence of \<^verbatim>\<open>setHistory\<close> calls that the functions
    below have made so far. What \<^verbatim>\<open>GetScrollPositions\<close>, which is not among the
    sources, stores on its own is not part of it.
  The content of the page, the pagination strip built from the page list and the scroll
  position live in the DOM and are not part of the state.
\<close>

record vars =
  CURRENT_PAGE :: int
  TOTAL_PAGES :: int
  PAGE_BREAKS :: "int list"
  IS_PROCESSING :: bool
  GOTO_TITLE_CLICKED :: bool
  FILENAME :: string
  ui_numPaginationItems :: int
  GET_LINE :: "int \<Rightarrow> element option"
  history :: "(string \<times> int) list"

text \<open>
  Modelled from the spec: \<^verbatim>\<open>setHistory(documentId, lineNumber)\<close> of
  \<^verbatim>\<open>utils/helpers-reader.js\<close>, which is not among the sources. The spec has it
  persist the last-read position, fire and forget; the model appends the call to
  \<open>history\<close>.
\<close>

definition setHistory :: "string \<Rightarrow> int \<Rightarrow> vars \<Rightarrow> vars" where
  "setHistory documentId lineNumber s = s\<lparr>history := history s @ [(documentId, lineNumber)]\<rparr>"

subsection \<open>Navigation\<close>

text \<open>
  A function that can throw returns the raised error or its value, together with the
  state it leaves: an assignment made before the \<^verbatim>\<open>throw\<close> stays.

  \<^verbatim>\<open>generatePagination()\<close> calls
  \<^verbatim>\<open>_getPageList(TOTAL_PAGES, CURRENT_PAGE, parseInt(ui_numPaginationItems), IS_PROCESSING)\<close>
  outside any \<^verbatim>\<open>try\<close>, and then builds the strip from the list. The model returns
  the list, or the error of \<^verbatim>\<open>_getPageList\<close>.
  \<^verbatim>\<open>showCurrentPageContent()\<close> catches every error in its body and changes the DOM
  only, so it is no step of the functions below; nor are \<^verbatim>\<open>window.scrollTo\<close>,
  \<^verbatim>\<open>GetScrollPositions\<close> and \<^verbatim>\<open>setChapterTitleActive\<close>.
\<close>

text \<open>
  What \<^verbatim>\<open>showCurrentPageContent\<close> shows on the current page are the lines \<open>j\<close>
  with \<open>startIndex \<le> j < min endIndex maxLines\<close>, where
  \<^verbatim>\<open>startIndex = PAGE_BREAKS[CURRENT_PAGE - 1] || 0\<close> and
  \<^verbatim>\<open>endIndex = PAGE_BREAKS[CURRENT_PAGE] || maxLines\<close>. An index outside the array
  reads \<^verbatim>\<open>undefined\<close>, which like \<open>0\<close> gives way to the right operand.
\<close>

definition startIndex :: "int list \<Rightarrow> int \<Rightarrow> int" where
  "startIndex pageBreaks currentPage =
     (let i = currentPage - 1
      in if 0 \<le> i \<and> i < int (length pageBreaks) \<and> pageBreaks ! nat i \<noteq> 0
         then pageBreaks ! nat i else 0)"

definition endIndex :: "int list \<Rightarrow> int \<Rightarrow> int \<Rightarrow> int" where
  "endIndex pageBreaks currentPage maxLines =
     (let i = currentPage
      in if 0 \<le> i \<and> i < int (length pageBreaks) \<and> pageBreaks ! nat i \<noteq> 0
         then pageBreaks ! nat i else maxLines)"

definition generatePagination :: "vars \<Rightarrow> error + int list" where
  "generatePagination s =
     getPageList (TOTAL_PAGES s) (CURRENT_PAGE s) (ui_numPaginationItems s) (IS_PROCESSING s)"

text \<open>The second argument of \<^verbatim>\<open>gotoPage\<close>: \<^verbatim>\<open>"top"\<close>, \<^verbatim>\<open>"bottom"\<close>,
  or anything else (\<^verbatim>\<open>gotoLine\<close> passes \<^verbatim>\<open>false\<close>). It selects a scroll only.\<close>

datatype scrollTo = Top | Bottom | NoScroll

text \<open>
  \<^verbatim>\<open>isNaN(page) ? CURRENT_PAGE : Math.max(1, Math.min(page, TOTAL_PAGES))\<close>, the
  expression both \<^verbatim>\<open>gotoPage\<close> and \<^verbatim>\<open>gotoPageInputField\<close> assign to
  \<^verbatim>\<open>CURRENT_PAGE\<close>.
\<close>

definition clampPage :: "number \<Rightarrow> vars \<Rightarrow> int" where
  "clampPage page s =
     (case page of NaN \<Rightarrow> CURRENT_PAGE s | Num p \<Rightarrow> max 1 (min p (TOTAL_PAGES s)))"

text \<open>\<^verbatim>\<open>gotoPage(page, scrollTo = "top")\<close>.\<close>

definition gotoPage :: "number \<Rightarrow> scrollTo \<Rightarrow> vars \<Rightarrow> (error + unit) \<times> vars" where
  "gotoPage page scrollTo s =
     (let s1 = s\<lparr>CURRENT_PAGE := clampPage page s\<rparr>
      in case generatePagination s1 of
           Inl e \<Rightarrow> (Inl e, s1)
         | Inr showPages \<Rightarrow> (Inr (), s1))"

text \<open>
  \<^verbatim>\<open>gotoPageInputField(e, scrollTo = "top")\<close>. The event carries the key pressed and
  the text of the input field. \<^verbatim>\<open>parseInt\<close> is a built-in of the language; it is a
  parameter here, so that what is proved holds for whatever number or \<^verbatim>\<open>NaN\<close> it
  returns.
\<close>

record event =
  key :: string
  target_value :: string

definition gotoPageInputField ::
  "(string \<Rightarrow> number) \<Rightarrow> event \<Rightarrow> scrollTo \<Rightarrow> vars \<Rightarrow> (error + unit) \<times> vars" where
  "gotoPageInputField parseInt e scrollTo s =
     (if key e = ''Enter'' then
        (let pageNumberInput = target_value e;
             page = parseInt pageNumberInput;
             s1 = s\<lparr>CURRENT_PAGE := clampPage page s\<rparr>
         in case generatePagination s1 of
              Inl err \<Rightarrow> (Inl err, s1)
            | Inr showPages \<Rightarrow> (Inr (), s1))
      else (Inr (), s))"

text \<open>
  \<^verbatim>\<open>Array.prototype.findIndex\<close>: the index, counted from 0, of the first element
  that satisfies the predicate, and \<open>-1\<close> when there is none.
\<close>

fun findIndex :: "('a \<Rightarrow> bool) \<Rightarrow> 'a list \<Rightarrow> int" where
  "findIndex P [] = - 1"
| "findIndex P (x # xs) =
     (if P x then 0
      else (let i = findIndex P xs in if i = - 1 then - 1 else i + 1))"

text \<open>The first three statements of \<^verbatim>\<open>gotoLine\<close>, which compute the page to go to.\<close>

definition needToGoPage :: "int list \<Rightarrow> int \<Rightarrow> int \<Rightarrow> int" where
  "needToGoPage pageBreaks totalPages lineNumber =
     (let n = findIndex (\<lambda>breakPoint. breakPoint > lineNumber) pageBreaks;
          n = (if n = - 1 then int (length pageBreaks) else n)
      in max 1 (min n totalPages))"

text \<open>
  \<^verbatim>\<open>gotoLine(lineNumber, isTitle = true)\<close>. It returns \<open>0\<close> or \<open>-1\<close>, or
  propagates the error of \<^verbatim>\<open>gotoPage\<close>. For an element that is found, the tag
  name \<^verbatim>\<open>H2\<close> selects a scroll back by three lines and marks the title active;
  these are effects on the DOM, so both branches of the source come to the same result
  here: \<open>-1\<close> from the \<^verbatim>\<open>catch\<close> clause when a DOM call throws, and
  otherwise the history entry and \<open>0\<close>.
\<close>

definition gotoLine :: "int \<Rightarrow> bool \<Rightarrow> vars \<Rightarrow> (error + int) \<times> vars" where
  "gotoLine lineNumber isTitle s =
     (let n = needToGoPage (PAGE_BREAKS s) (TOTAL_PAGES s) lineNumber;
          (r, s1) = (if n \<noteq> CURRENT_PAGE s then gotoPage (Num n) NoScroll s else (Inr (), s))
      in case r of
           Inl e \<Rightarrow> (Inl e, s1)
         | Inr u \<Rightarrow>
             if isTitle then
               (Inr 0, setHistory (FILENAME s1) lineNumber (s1\<lparr>GOTO_TITLE_CLICKED := True\<rparr>))
             else
               (case GET_LINE s1 lineNumber of
                  None \<Rightarrow> (Inr (- 1), s1)
                | Some line \<Rightarrow>
                    if scrollFails line then (Inr (- 1), s1)
                    else (Inr 0, setHistory (FILENAME s1) lineNumber s1)))"

subsection \<open>A state for the examples\<close>

text \<open>
  A document of four pages that start at lines 0, 10, 25 and 40, before any navigation;
  no line has an element in the rendered page. The current page and the number of
  pagination items vary between the examples.
\<close>

definition exampleVars :: "int \<Rightarrow> int \<Rightarrow> vars" where
  "exampleVars currentPage numPaginationItems =
     \<lparr>CURRENT_PAGE = currentPage, TOTAL_PAGES = 4, PAGE_BREAKS = [0, 10, 25, 40],
      IS_PROCESSING = False, GOTO_TITLE_CLICKED = False, FILENAME = ''book.txt'',
      ui_numPaginationItems = numPaginationItems, GET_LINE = (\<lambda>lineNumber. None),
      history = []\<rparr>"

subsection \<open>Facts about ranges and widths\<close>

lemma range_arr_upto: "range_arr a b = [a..b]"
proof (cases "a \<le> b")
  case False
  then show ?thesis by (simp add: range_arr_def)
next
  case True
  show ?thesis
  proof (rule nth_equalityI)
    show "length (range_arr a b) = length [a..b]"
      by (simp add: range_arr_def)
  next
    fix i
    assume "i < length (range_arr a b)"
    then have i: "i < nat (b - a + 1)"
      by (simp add: range_arr_def)
    then have "a + int i \<le> b" by linarith
    then have "[a..b] ! i = a + int i" by simp
    moreover have "range_arr a b ! i = int i + a"
      using i by (simp add: range_arr_def)
    ultimately show "range_arr a b ! i = [a..b] ! i" by simp
  qed
qed

lemma upto_from_one: "[1..numeral n] = 1 # [2..numeral n]"
  by (simp add: upto.simps [of 1])

lemma set_range_arr: "set (range_arr a b) = {a..b}"
  by (simp add: range_arr_upto)

lemma zero_notin_range_arr: "0 < a \<Longrightarrow> 0 \<notin> set (range_arr a b)"
  by (simp add: set_range_arr)

lemma count_zero_range_arr: "0 < a \<Longrightarrow> count_list (range_arr a b) 0 = 0"
  by (simp add: zero_notin_range_arr)

lemma range_arr_nonempty: "a \<le> b \<Longrightarrow> range_arr a b \<noteq> []"
  by (simp add: range_arr_upto)

lemma sideWidth_cases: "sideWidth m = 1 \<or> sideWidth m = 2"
  by (simp add: sideWidth_def)

lemma widths_sum:
  "leftWidth m + rightWidth m = m - sideWidth m * 2 - 3"
  unfolding leftWidth_def rightWidth_def by presburger

lemma trailing_start_pos: "5 \<le> m \<Longrightarrow> m < T \<Longrightarrow> 0 < T - sideWidth m + 1"
  by (simp add: sideWidth_def)

lemma end_run_start:
  "T - sideWidth m - 1 - rightWidth m - leftWidth m = T - m + sideWidth m + 2"
  using widths_sum [of m] by linarith

lemma end_run_pos: "5 \<le> m \<Longrightarrow> m < T \<Longrightarrow> 0 < T - sideWidth m - 1 - rightWidth m - leftWidth m"
  unfolding end_run_start by (simp add: sideWidth_def)

lemma window_pos:
  assumes "\<not> c \<le> m - sideWidth m - 1 - rightWidth m"
  shows "0 < c - leftWidth m"
proof -
  have "c - leftWidth m > m - sideWidth m - 1 - (leftWidth m + rightWidth m)"
    using assms by linarith
  then have "c - leftWidth m > sideWidth m + 2"
    by (simp add: widths_sum)
  then show ?thesis using sideWidth_cases [of m] by linarith
qed

subsection \<open>Facts about the navigation\<close>

lemma findIndex_takeWhile:
  "findIndex P xs =
     (if \<exists>x \<in> set xs. P x then int (length (takeWhile (\<lambda>x. \<not> P x) xs)) else - 1)"
  by (induction xs) (auto simp: Let_def)

lemma needToGoPage_takeWhile:
  "needToGoPage pbs T ln = max 1 (min (int (length (takeWhile (\<lambda>b. \<not> ln < b) pbs))) T)"
proof (cases "\<exists>b \<in> set pbs. ln < b")
  case True
  then show ?thesis
    by (simp add: needToGoPage_def findIndex_takeWhile Let_def)
next
  case False
  then have "takeWhile (\<lambda>b. \<not> ln < b) pbs = pbs"
    by (simp add: takeWhile_eq_all_conv)
  with False show ?thesis
    by (simp add: needToGoPage_def findIndex_takeWhile Let_def del: takeWhile_eq_all_conv)
qed

lemma takeWhile_length_first:
  assumes "i < length xs" and "P (xs ! i)" and "\<forall>j < i. \<not> P (xs ! j)"
  shows "length (takeWhile (\<lambda>x. \<not> P x) xs) = i"
proof -
  have "takeWhile (\<lambda>x. \<not> P x) xs = take i xs"
    using assms by (intro takeWhile_eq_take_P_nth) auto
  then show ?thesis using assms(1) by simp
qed

lemma generatePagination_small:
  "ui_numPaginationItems s < 5 \<Longrightarrow> generatePagination s = Inl InvalidArgument"
  by (simp add: generatePagination_def getPageList_def)

lemma generatePagination_large:
  "5 \<le> ui_numPaginationItems s \<Longrightarrow> \<exists>showPages. generatePagination s = Inr showPages"
  by (simp add: generatePagination_def getPageList_def Let_def)

lemma gotoPage_state: "snd (gotoPage page scrollTo s) = s\<lparr>CURRENT_PAGE := clampPage page s\<rparr>"
  by (simp add: gotoPage_def Let_def split: sum.splits)

lemma gotoPage_outcome:
  "fst (gotoPage page scrollTo s) =
     (if ui_numPaginationItems s < 5 then Inl InvalidArgument else Inr ())"
proof (cases "ui_numPaginationItems s < 5")
  case True
  then have "generatePagination (s\<lparr>CURRENT_PAGE := clampPage page s\<rparr>) = Inl InvalidArgument"
    by (simp add: generatePagination_small)
  with True show ?thesis by (simp add: gotoPage_def Let_def)
next
  case False
  then obtain l where "generatePagination (s\<lparr>CURRENT_PAGE := clampPage page s\<rparr>) = Inr l"
    using generatePagination_large [of "s\<lparr>CURRENT_PAGE := clampPage page s\<rparr>"] by auto
  with False show ?thesis by (simp add: gotoPage_def Let_def)
qed

lemma gotoPageInputField_eq:
  "gotoPageInputField parseInt e scrollTo s =
     (if key e = ''Enter'' then gotoPage (parseInt (target_value e)) scrollTo s else (Inr (), s))"
  by (simp add: gotoPageInputField_def gotoPage_def Let_def)

lemma clampPage_in_range:
  "1 \<le> TOTAL_PAGES s \<Longrightarrow> 1 \<le> CURRENT_PAGE s \<Longrightarrow> CURRENT_PAGE s \<le> TOTAL_PAGES s \<Longrightarrow>
   1 \<le> clampPage page s \<and> clampPage page s \<le> TOTAL_PAGES s"
  by (cases page) (simp_all add: clampPage_def)

lemma needToGoPage_in_range:
  "1 \<le> T \<Longrightarrow> 1 \<le> needToGoPage pbs T ln \<and> needToGoPage pbs T ln \<le> T"
  by (simp add: needToGoPage_def Let_def)

lemma clampPage_needToGoPage:
  "clampPage (Num (needToGoPage pbs (TOTAL_PAGES s) ln)) s = needToGoPage pbs (TOTAL_PAGES s) ln"
  by (simp add: clampPage_def needToGoPage_def Let_def)

lemma gotoLine_transition:
  "gotoLine ln isTitle s =
     (let n = needToGoPage (PAGE_BREAKS s) (TOTAL_PAGES s) ln;
          s1 = s\<lparr>CURRENT_PAGE := n\<rparr>
      in if n \<noteq> CURRENT_PAGE s \<and> ui_numPaginationItems s < 5 then (Inl InvalidArgument, s1)
         else if isTitle then
           (Inr 0, setHistory (FILENAME s) ln (s1\<lparr>GOTO_TITLE_CLICKED := True\<rparr>))
         else (case GET_LINE s ln of
                 None \<Rightarrow> (Inr (- 1), s1)
               | Some line \<Rightarrow>
                   if scrollFails line then (Inr (- 1), s1)
                   else (Inr 0, setHistory (FILENAME s) ln s1)))"
proof -
  let ?n = "needToGoPage (PAGE_BREAKS s) (TOTAL_PAGES s) ln"
  show ?thesis
  proof (cases "?n = CURRENT_PAGE s")
    case True
    then have "s\<lparr>CURRENT_PAGE := ?n\<rparr> = s" by simp
    with True show ?thesis
      by (simp add: gotoLine_def Let_def split: option.splits)
  next
    case False
    have "gotoPage (Num ?n) NoScroll s =
            (if ui_numPaginationItems s < 5 then Inl InvalidArgument else Inr (),
             s\<lparr>CURRENT_PAGE := ?n\<rparr>)"
      using gotoPage_outcome [of "Num ?n" NoScroll s] gotoPage_state [of "Num ?n" NoScroll s]
      by (simp add: clampPage_needToGoPage prod_eq_iff)
    with False show ?thesis
      by (simp add: gotoLine_def Let_def split: option.splits)
  qed
qed

lemma needToGoPage_leading_zero:
  assumes "\<forall>b \<in> set pbs. 0 \<le> b"
  shows "needToGoPage (0 # pbs) (int (length pbs) + 1) ln =
           int (length (takeWhile (\<lambda>b. \<not> ln < b) pbs)) + 1"
proof (cases "ln < 0")
  case True
  have "takeWhile (\<lambda>b. \<not> ln < b) pbs = []"
  proof (cases pbs)
    case Nil
    then show ?thesis by simp
  next
    case (Cons b bs)
    then have "0 \<le> b" using assms by simp
    with True Cons show ?thesis by simp
  qed
  with True show ?thesis by (simp add: needToGoPage_takeWhile)
next
  case False
  have "length (takeWhile (\<lambda>b. \<not> ln < b) pbs) \<le> length pbs"
    by (rule length_takeWhile_le)
  with False show ?thesis by (simp add: needToGoPage_takeWhile)
qed

text \<open>
  The page \<^verbatim>\<open>gotoLine\<close> goes to is the page on which
  \<^verbatim>\<open>showCurrentPageContent\<close> shows the line, when \<open>PAGE_BREAKS\<close> holds the
  first line of every page, the first page included, in increasing order.
\<close>

lemma shown_line_target_page:
  assumes sorted: "sorted_wrt (<) pageBreaks" and nonneg: "\<forall>b \<in> set pageBreaks. 0 \<le> b"
    and len: "int (length pageBreaks) = totalPages"
    and p: "1 \<le> p" "p \<le> totalPages"
    and lo: "startIndex pageBreaks p \<le> lineNumber"
    and hi: "lineNumber < min (endIndex pageBreaks p maxLines) maxLines"
  shows "needToGoPage pageBreaks totalPages lineNumber = p"
proof -
  let ?k = "nat (p - 1)"
  have k: "?k < length pageBreaks" using p len by linarith
  have start: "pageBreaks ! ?k \<le> lineNumber"
    using lo p len by (simp add: startIndex_def Let_def split: if_splits)
  have before: "\<not> lineNumber < pageBreaks ! j" if "j \<le> ?k" for j
  proof -
    have "pageBreaks ! j \<le> pageBreaks ! ?k"
    proof (cases "j = ?k")
      case True then show ?thesis by simp
    next
      case False
      with that have "j < ?k" by simp
      then have "pageBreaks ! j < pageBreaks ! ?k"
        using sorted k by (simp add: sorted_wrt_nth_less)
      then show ?thesis by simp
    qed
    with start show ?thesis by linarith
  qed
  show ?thesis
  proof (cases "p < totalPages")
    case True
    then have i: "nat p < length pageBreaks" using len p by linarith
    have "pageBreaks ! 0 < pageBreaks ! nat p"
      using sorted i p by (simp add: sorted_wrt_nth_less)
    moreover have "pageBreaks ! 0 \<in> set pageBreaks"
      using i by (intro nth_mem) auto
    then have "0 \<le> pageBreaks ! 0" using nonneg by blast
    ultimately have "pageBreaks ! nat p \<noteq> 0" by linarith
    then have "endIndex pageBreaks p maxLines = pageBreaks ! nat p"
      using True p len by (simp add: endIndex_def Let_def)
    then have gt: "lineNumber < pageBreaks ! nat p" using hi by simp
    have "nat p = Suc ?k" using p by linarith
    then have "\<forall>j < nat p. \<not> lineNumber < pageBreaks ! j"
      using before by (simp add: less_Suc_eq_le)
    then have "length (takeWhile (\<lambda>b. \<not> lineNumber < b) pageBreaks) = nat p"
      using takeWhile_length_first [of "nat p" pageBreaks "\<lambda>b. lineNumber < b"] i gt by simp
    then show ?thesis using p True by (simp add: needToGoPage_takeWhile)
  next
    case False
    then have pT: "p = totalPages" using p by simp
    have "\<forall>b \<in> set pageBreaks. \<not> lineNumber < b"
    proof
      fix b assume "b \<in> set pageBreaks"
      then obtain j where j: "j < length pageBreaks" "b = pageBreaks ! j"
        by (auto simp: in_set_conv_nth)
      then have "j \<le> ?k" using pT len by linarith
      from before [OF this] j show "\<not> lineNumber < b" by simp
    qed
    then have "takeWhile (\<lambda>b. \<not> lineNumber < b) pageBreaks = pageBreaks"
      by (simp add: takeWhile_eq_all_conv)
    then show ?thesis
      using pT len p by (simp add: needToGoPage_takeWhile del: takeWhile_eq_all_conv)
  qed
qed

lemma shown_line_target_page_example:
  "startIndex [0, 10, 25, 40] 2 \<le> 12 \<and> 12 < min (endIndex [0, 10, 25, 40] 2 50) 50
   \<and> needToGoPage [0, 10, 25, 40] 4 12 = 2"
  by (simp add: startIndex_def endIndex_def needToGoPage_def)

subsection \<open>Properties of the page list\<close>

text \<open>
  C2 (full fit). When \<open>maxLength \<ge> 5\<close>, \<open>1 \<le> currentPage \<le> totalPages\<close> and
  \<open>totalPages \<le> maxLength\<close>, the page list is exactly \<open>[1, 2, ..., totalPages]\<close>, for
  both values of \<open>duringProcessing\<close>, and it holds no gap marker \<open>0\<close>.
\<close>

theorem getPageList_full_fit:
  assumes "5 \<le> maxLength" and "1 \<le> currentPage" and "currentPage \<le> totalPages"
    and "totalPages \<le> maxLength"
  shows "getPageList totalPages currentPage maxLength duringProcessing = Inr [1..totalPages]
         \<and> 0 \<notin> set [1..totalPages]
         \<and> length [1..totalPages] = nat totalPages"
  using assms by (simp add: getPageList_def range_arr_upto)

theorem getPageList_full_fit_witness:
  "(5::int) \<le> 7 \<and> (1::int) \<le> 3 \<and> (3::int) \<le> 6 \<and> (6::int) \<le> 7
   \<and> getPageList 6 3 7 True = Inr [1, 2, 3, 4, 5, 6]
   \<and> getPageList 6 3 7 False = Inr [1, 2, 3, 4, 5, 6]"
  using getPageList_full_fit [of 7 3 6 True] getPageList_full_fit [of 7 3 6 False]
  by (simp add: upto_from_one)

text \<open>
  C6 (concrete scenario). The claim expects \<open>[1, 2, 3, 4, 0, 99, 100]\<close> for
  \<open>totalPages = 100\<close>, \<open>currentPage = 1\<close>, \<open>maxLength = 7\<close>,
  \<open>duringProcessing = false\<close>. The code does not return that list.
\<close>

theorem getPageList_scenario_counterexample:
  "getPageList 100 1 7 False \<noteq> Inr [1, 2, 3, 4, 0, 99, 100]"
  by (simp add: getPageList_def sideWidth_def rightWidth_def leftWidth_def range_arr_upto
      upto_from_one)

text \<open>
  C6, as the code has it. With \<open>maxLength = 7\<close> the side width is 1, so the leading run
  is \<open>1..maxLength - sideWidth - 1 = 1..5\<close> and the trailing cluster is the single page
  \<open>100\<close>: the list is \<open>[1, 2, 3, 4, 5, 0, 100]\<close>, a leading run, one gap marker and
  the trailing cluster.
\<close>

theorem getPageList_scenario:
  "getPageList 100 1 7 False = Inr [1, 2, 3, 4, 5, 0, 100]
   \<and> sideWidth 7 = 1 \<and> leftWidth 7 = 1 \<and> rightWidth 7 = 1"
  by (simp add: getPageList_def sideWidth_def rightWidth_def leftWidth_def range_arr_upto
      upto_from_one)

text \<open>
  C8 (precondition). The call fails with \<open>InvalidArgument\<close> exactly when
  \<open>maxLength < 5\<close>, whatever the other arguments are, and returns a list exactly when
  \<open>maxLength \<ge> 5\<close>; so \<open>maxLength = 4\<close> fails (it is not clamped to 5) and
  \<open>maxLength = 5\<close> succeeds.
\<close>

theorem getPageList_precondition:
  "(getPageList totalPages currentPage maxLength duringProcessing = Inl InvalidArgument)
     = (maxLength < 5)
   \<and> (\<exists>pages. getPageList totalPages currentPage maxLength duringProcessing = Inr pages)
     = (5 \<le> maxLength)
   \<and> getPageList totalPages currentPage 4 duringProcessing = Inl InvalidArgument
   \<and> (\<exists>pages. getPageList totalPages currentPage 5 duringProcessing = Inr pages)"
  by (auto simp add: getPageList_def Let_def)

text \<open>
  C3 (middle case during processing). The claim has the list end with the window. At
  \<open>totalPages = 100\<close>, \<open>currentPage = 50\<close>, \<open>maxLength = 7\<close>, which is
  neither in the start cluster nor in the end cluster, the code does not return the
  leading page, a gap marker and the window alone.
\<close>

theorem getPageList_middle_processing_counterexample:
  "\<not> 50 \<le> 7 - sideWidth 7 - 1 - rightWidth 7
   \<and> \<not> 50 \<ge> 100 - sideWidth 7 - 1 - rightWidth 7
   \<and> getPageList 100 50 7 True \<noteq>
       Inr ([1..sideWidth 7] @ [0] @ [50 - leftWidth 7..50 + rightWidth 7])"
  by (simp add: getPageList_def sideWidth_def rightWidth_def leftWidth_def range_arr_upto)

text \<open>
  C3, as the code has it. In the middle case (\<open>totalPages > maxLength\<close>,
  \<open>currentPage\<close> in neither cluster) with \<open>duringProcessing = true\<close> the list
  is the leading \<open>sideWidth\<close> pages, a gap marker, the window
  \<open>[currentPage - leftWidth, currentPage + rightWidth]\<close> and a second gap marker
  after the window; only the trailing cluster is left out.
\<close>

theorem getPageList_middle_processing:
  assumes "5 \<le> maxLength" and "maxLength < totalPages"
    and "\<not> currentPage \<le> maxLength - sideWidth maxLength - 1 - rightWidth maxLength"
    and "\<not> currentPage \<ge> totalPages - sideWidth maxLength - 1 - rightWidth maxLength"
  shows "getPageList totalPages currentPage maxLength True =
           Inr ([1..sideWidth maxLength] @ [0] @
                [currentPage - leftWidth maxLength..currentPage + rightWidth maxLength] @ [0])"
  using assms by (simp add: getPageList_def range_arr_upto)

theorem getPageList_middle_processing_witness:
  "(5::int) \<le> 7 \<and> (7::int) < 100
   \<and> \<not> 50 \<le> 7 - sideWidth 7 - 1 - rightWidth 7
   \<and> \<not> 50 \<ge> 100 - sideWidth 7 - 1 - rightWidth 7
   \<and> getPageList 100 50 7 True = Inr [1, 0, 49, 50, 51, 0]"
proof -
  have w: "sideWidth 7 = 1" "leftWidth 7 = 1" "rightWidth 7 = 1"
    by (simp_all add: sideWidth_def leftWidth_def rightWidth_def)
  show ?thesis
    using getPageList_middle_processing [of 7 100 50] by (simp add: w)
qed

text \<open>
  C4 (gap count). For \<open>maxLength \<ge> 5\<close>, \<open>1 \<le> currentPage \<le> totalPages\<close>,
  \<open>totalPages > maxLength\<close> and \<open>duringProcessing = false\<close>, the list holds at
  most two gap markers: exactly one when \<open>currentPage\<close> is in the start cluster
  (\<open>currentPage \<le> maxLength - sideWidth - 1 - rightWidth\<close>) or in the end cluster
  (\<open>currentPage \<ge> totalPages - sideWidth - 1 - rightWidth\<close>), and two otherwise.
\<close>

theorem getPageList_gap_count:
  assumes "5 \<le> maxLength" and "1 \<le> currentPage" and "currentPage \<le> totalPages"
    and "maxLength < totalPages"
  shows "\<exists>pages. getPageList totalPages currentPage maxLength False = Inr pages
           \<and> count_list pages 0 \<le> 2
           \<and> (if currentPage \<le> maxLength - sideWidth maxLength - 1 - rightWidth maxLength
                 \<or> currentPage \<ge> totalPages - sideWidth maxLength - 1 - rightWidth maxLength
               then count_list pages 0 = 1 else count_list pages 0 = 2)"
proof -
  let ?sw = "sideWidth maxLength" and ?lw = "leftWidth maxLength" and ?rw = "rightWidth maxLength"
  note tr = trailing_start_pos [OF assms(1,4)]
  note er = end_run_pos [OF assms(1,4)]
  consider (start) "currentPage \<le> maxLength - ?sw - 1 - ?rw"
    | (end') "\<not> currentPage \<le> maxLength - ?sw - 1 - ?rw" "currentPage \<ge> totalPages - ?sw - 1 - ?rw"
    | (middle) "\<not> currentPage \<le> maxLength - ?sw - 1 - ?rw" "\<not> currentPage \<ge> totalPages - ?sw - 1 - ?rw"
    by blast
  then show ?thesis
  proof cases
    case start
    then show ?thesis
      using assms(1,4) tr by (simp add: getPageList_def count_zero_range_arr)
  next
    case end'
    then show ?thesis
      using assms(1,4) er by (simp add: getPageList_def count_zero_range_arr)
  next
    case middle
    then show ?thesis
      using assms(1,4) tr window_pos [OF middle(1)]
      by (simp add: getPageList_def count_zero_range_arr)
  qed
qed

theorem getPageList_gap_count_witness:
  "(5::int) \<le> 7 \<and> (1::int) \<le> 50 \<and> (50::int) \<le> 100 \<and> (7::int) < 100
   \<and> getPageList 100 50 7 False = Inr [1, 0, 49, 50, 51, 0, 100]
   \<and> count_list [1, 0, 49, 50, 51, 0, 100] (0::int) = 2
   \<and> getPageList 100 2 7 False = Inr [1, 2, 3, 4, 5, 0, 100]
   \<and> count_list [1, 2, 3, 4, 5, 0, 100] (0::int) = 1
   \<and> getPageList 100 98 7 False = Inr [1, 0, 96, 97, 98, 99, 100]
   \<and> count_list [1, 0, 96, 97, 98, 99, 100] (0::int) = 1"
proof -
  have w: "sideWidth 7 = 1" "leftWidth 7 = 1" "rightWidth 7 = 1"
    by (simp_all add: sideWidth_def leftWidth_def rightWidth_def)
  have g: "getPageList 100 50 7 False = Inr [1, 0, 49, 50, 51, 0, 100]"
      "getPageList 100 2 7 False = Inr [1, 2, 3, 4, 5, 0, 100]"
      "getPageList 100 98 7 False = Inr [1, 0, 96, 97, 98, 99, 100]"
    by (simp_all add: getPageList_def w range_arr_upto upto_from_one)
  show ?thesis
    using getPageList_gap_count [of 7 50 100] getPageList_gap_count [of 7 2 100]
      getPageList_gap_count [of 7 98 100]
    by (simp add: g w)
qed

text \<open>
  C5 (processing truncation). The claim has the list for \<open>duringProcessing = true\<close>
  be a strict prefix of the list for \<open>false\<close> on every valid input. When all pages
  fit (\<open>totalPages = 3\<close>, \<open>maxLength = 5\<close>) the two lists are equal.
\<close>

theorem getPageList_processing_prefix_counterexample:
  "(5::int) \<le> 5 \<and> (1::int) \<le> 1 \<and> (1::int) \<le> 3
   \<and> getPageList 3 1 5 True = Inr [1, 2, 3]
   \<and> getPageList 3 1 5 False = Inr [1, 2, 3]
   \<and> \<not> strict_prefix [1, 2, 3] [1, 2, 3::int]"
  by (simp add: getPageList_def range_arr_upto upto_from_one)

text \<open>
  C5, as the code has it. For \<open>maxLength \<ge> 5\<close> and
  \<open>1 \<le> currentPage \<le> totalPages\<close> the list for \<open>duringProcessing = true\<close> is
  a prefix of the list for \<open>false\<close>, and a strict prefix exactly when
  \<open>totalPages > maxLength\<close>; when all pages fit, the first return of the function
  gives the same list for both.
\<close>

theorem getPageList_processing_prefix:
  assumes "5 \<le> maxLength" and "1 \<le> currentPage" and "currentPage \<le> totalPages"
  shows "\<exists>xs ys. getPageList totalPages currentPage maxLength True = Inr xs
           \<and> getPageList totalPages currentPage maxLength False = Inr ys
           \<and> prefix xs ys
           \<and> strict_prefix xs ys = (maxLength < totalPages)"
proof (cases "totalPages \<le> maxLength")
  case True
  then show ?thesis using assms(1) by (simp add: getPageList_def)
next
  case False
  let ?sw = "sideWidth maxLength" and ?lw = "leftWidth maxLength" and ?rw = "rightWidth maxLength"
  have t: "range_arr (totalPages - ?sw + 1) totalPages \<noteq> []"
    using sideWidth_cases [of maxLength] by (intro range_arr_nonempty) linarith
  have e: "range_arr (totalPages - ?sw - 1 - ?rw - ?lw) totalPages \<noteq> []"
    unfolding end_run_start using assms(1) sideWidth_cases [of maxLength]
    by (intro range_arr_nonempty) (simp add: sideWidth_def split: if_splits)
  show ?thesis
    using False assms(1) t e
    by (simp add: getPageList_def strict_prefix_def)
qed

theorem getPageList_processing_prefix_witness:
  "(5::int) \<le> 7 \<and> (1::int) \<le> 50 \<and> (50::int) \<le> 100
   \<and> getPageList 100 50 7 True = Inr [1, 0, 49, 50, 51, 0]
   \<and> getPageList 100 50 7 False = Inr [1, 0, 49, 50, 51, 0, 100]
   \<and> strict_prefix [1, 0, 49, 50, 51, 0] [1, 0, 49, 50, 51, 0, 100::int]"
proof -
  have w: "sideWidth 7 = 1" "leftWidth 7 = 1" "rightWidth 7 = 1"
    by (simp_all add: sideWidth_def leftWidth_def rightWidth_def)
  have g: "getPageList 100 50 7 True = Inr [1, 0, 49, 50, 51, 0]"
      "getPageList 100 50 7 False = Inr [1, 0, 49, 50, 51, 0, 100]"
    by (simp_all add: getPageList_def w range_arr_upto upto_from_one)
  show ?thesis
    using getPageList_processing_prefix [of 7 50 100]
    by (simp add: g)
qed

subsection \<open>Properties of the navigation\<close>

text \<open>
  C1 (target page of a line). The specification's \<open>PageBreaks\<close> lists the first
  line of every page but the first, which starts at line 0, so it has
  \<open>TotalPages - 1\<close> entries, none negative. The array \<^verbatim>\<open>PAGE_BREAKS\<close> of the
  code holds the first line of every page, the first included
  (\<^verbatim>\<open>showCurrentPageContent\<close> starts page \<open>p\<close> at
  \<^verbatim>\<open>PAGE_BREAKS[p - 1]\<close>): it is \<open>0 # PageBreaks\<close>. On such a state, for every
  line number, \<^verbatim>\<open>gotoLine\<close> leaves \<open>CURRENT_PAGE\<close> at the position, counted
  from 1, of the first entry of \<open>PageBreaks\<close> strictly greater than the line, or at
  \<open>TOTAL_PAGES\<close> when there is no such entry, clamped to \<open>[1, TOTAL_PAGES]\<close>.
  With \<open>PageBreaks = [10, 25, 40]\<close> and four pages, lines 9, 10, 39, 40 and 1000 go
  to pages 1, 2, 3, 4 and 4.
\<close>

theorem gotoLine_target_page:
  assumes "PAGE_BREAKS s = 0 # pageBreaks"
    and "TOTAL_PAGES s = int (length pageBreaks) + 1"
    and "\<forall>b \<in> set pageBreaks. 0 \<le> b"
  shows "(\<forall>i. i < length pageBreaks \<and> lineNumber < pageBreaks ! i
              \<and> (\<forall>j < i. \<not> lineNumber < pageBreaks ! j)
            \<longrightarrow> CURRENT_PAGE (snd (gotoLine lineNumber isTitle s))
                  = max 1 (min (int i + 1) (TOTAL_PAGES s)))
    \<and> ((\<forall>b \<in> set pageBreaks. \<not> lineNumber < b)
            \<longrightarrow> CURRENT_PAGE (snd (gotoLine lineNumber isTitle s))
                  = max 1 (min (TOTAL_PAGES s) (TOTAL_PAGES s)))
    \<and> CURRENT_PAGE (snd (gotoLine lineNumber isTitle s))
        = needToGoPage (PAGE_BREAKS s) (TOTAL_PAGES s) lineNumber
    \<and> 1 \<le> CURRENT_PAGE (snd (gotoLine lineNumber isTitle s))
    \<and> CURRENT_PAGE (snd (gotoLine lineNumber isTitle s)) \<le> TOTAL_PAGES s
    \<and> CURRENT_PAGE (snd (gotoLine 9 isTitle (exampleVars currentPage numItems))) = 1
    \<and> CURRENT_PAGE (snd (gotoLine 10 isTitle (exampleVars currentPage numItems))) = 2
    \<and> CURRENT_PAGE (snd (gotoLine 39 isTitle (exampleVars currentPage numItems))) = 3
    \<and> CURRENT_PAGE (snd (gotoLine 40 isTitle (exampleVars currentPage numItems))) = 4
    \<and> CURRENT_PAGE (snd (gotoLine 1000 isTitle (exampleVars currentPage numItems))) = 4"
proof -
  let ?target = "CURRENT_PAGE (snd (gotoLine lineNumber isTitle s))"
  let ?k = "length (takeWhile (\<lambda>b. \<not> lineNumber < b) pageBreaks)"
  have cur: "CURRENT_PAGE (snd (gotoLine ln isTitle t)) =
               needToGoPage (PAGE_BREAKS t) (TOTAL_PAGES t) ln" for ln t
    by (simp add: gotoLine_transition Let_def setHistory_def split: option.splits)
  have t: "?target = int ?k + 1"
    using needToGoPage_leading_zero [OF assms(3), of lineNumber] assms(1,2)
    by (simp add: cur)
  have k: "?k \<le> length pageBreaks" by (rule length_takeWhile_le)
  have a: "?target = max 1 (min (int i + 1) (TOTAL_PAGES s))"
    if "i < length pageBreaks" "lineNumber < pageBreaks ! i"
      "\<forall>j < i. \<not> lineNumber < pageBreaks ! j" for i
  proof -
    have "?k = i"
      using takeWhile_length_first [of i pageBreaks "\<lambda>b. lineNumber < b"] that by simp
    with t that(1) assms(2) show ?thesis by simp
  qed
  have b: "?target = max 1 (min (TOTAL_PAGES s) (TOTAL_PAGES s))"
    if "\<forall>b \<in> set pageBreaks. \<not> lineNumber < b"
  proof -
    have "takeWhile (\<lambda>b. \<not> lineNumber < b) pageBreaks = pageBreaks"
      using that by (simp add: takeWhile_eq_all_conv)
    then have "?k = length pageBreaks" by (simp del: takeWhile_eq_all_conv)
    with t assms(2) show ?thesis by simp
  qed
  have r: "1 \<le> ?target" "?target \<le> TOTAL_PAGES s"
    using t k assms(2) by simp_all
  have e: "CURRENT_PAGE (snd (gotoLine 9 isTitle (exampleVars currentPage numItems))) = 1"
    "CURRENT_PAGE (snd (gotoLine 10 isTitle (exampleVars currentPage numItems))) = 2"
    "CURRENT_PAGE (snd (gotoLine 39 isTitle (exampleVars currentPage numItems))) = 3"
    "CURRENT_PAGE (snd (gotoLine 40 isTitle (exampleVars currentPage numItems))) = 4"
    "CURRENT_PAGE (snd (gotoLine 1000 isTitle (exampleVars currentPage numItems))) = 4"
    by (simp_all add: cur exampleVars_def needToGoPage_def)
  show ?thesis
    using a b r e cur [of lineNumber s] by blast
qed

theorem gotoLine_target_page_witness:
  "PAGE_BREAKS (exampleVars 1 9) = 0 # [10, 25, 40]
   \<and> TOTAL_PAGES (exampleVars 1 9) = int (length [10, 25, 40::int]) + 1
   \<and> (0::int) \<le> 10 \<and> (0::int) \<le> 25 \<and> (0::int) \<le> 40
   \<and> (1::nat) < length [10, 25, 40::int] \<and> (10::int) < [10, 25, 40] ! 1
   \<and> \<not> (10::int) < [10, 25, 40] ! 0
   \<and> CURRENT_PAGE (snd (gotoLine 10 True (exampleVars 1 9))) = 2
   \<and> \<not> (40::int) < 10 \<and> \<not> (40::int) < 25 \<and> \<not> (40::int) < 40
   \<and> CURRENT_PAGE (snd (gotoLine 40 False (exampleVars 1 9))) = 4"
proof -
  let ?s = "exampleVars 1 9"
  have h: "PAGE_BREAKS ?s = 0 # [10, 25, 40]"
    "TOTAL_PAGES ?s = int (length [10, 25, 40::int]) + 1"
    "\<forall>b \<in> set [10, 25, 40::int]. 0 \<le> b"
    by (simp_all add: exampleVars_def)
  have "CURRENT_PAGE (snd (gotoLine 10 True ?s)) = max 1 (min (int 1 + 1) (TOTAL_PAGES ?s))"
    using gotoLine_target_page [OF h, of 10 True, THEN conjunct1, rule_format, of 1]
    by (simp add: less_Suc_eq)
  then have p10: "CURRENT_PAGE (snd (gotoLine 10 True ?s)) = 2"
    by (simp add: exampleVars_def)
  have "CURRENT_PAGE (snd (gotoLine 40 False ?s))
          = max 1 (min (TOTAL_PAGES ?s) (TOTAL_PAGES ?s))"
    using gotoLine_target_page [OF h, of 40 False, THEN conjunct2, THEN conjunct1] by simp
  then have p40: "CURRENT_PAGE (snd (gotoLine 40 False ?s)) = 4"
    by (simp add: exampleVars_def)
  show ?thesis using h(1,2) p10 p40 by simp
qed

text \<open>
  C7 (clamping in \<^verbatim>\<open>gotoPage\<close>). The claim has \<^verbatim>\<open>gotoPage\<close> never
  raise. \<^verbatim>\<open>gotoPage\<close> calls \<^verbatim>\<open>generatePagination\<close>, which calls
  \<^verbatim>\<open>_getPageList\<close> with the configured number of pagination items; with 4 items
  the error of \<^verbatim>\<open>_getPageList\<close> leaves \<^verbatim>\<open>gotoPage\<close>.
\<close>

theorem gotoPage_clamps_counterexample:
  "1 \<le> TOTAL_PAGES (exampleVars 2 4)
   \<and> fst (gotoPage (Num 0) Top (exampleVars 2 4)) = Inl InvalidArgument
   \<and> fst (gotoPage (Num 0) Top (exampleVars 2 4)) \<noteq> Inr ()"
  by (simp add: gotoPage_def generatePagination_def getPageList_def exampleVars_def)

text \<open>
  C7, as the code has it. In every state with \<open>TOTAL_PAGES \<ge> 1\<close>,
  \<^verbatim>\<open>gotoPage\<close> keeps \<open>CURRENT_PAGE\<close> when the requested page is
  \<^verbatim>\<open>NaN\<close> and otherwise sets it to the requested page clamped into
  \<open>[1, TOTAL_PAGES]\<close>: page 0 gives 1 and \<open>TOTAL_PAGES + 5\<close> gives
  \<open>TOTAL_PAGES\<close>. It raises exactly when the number of pagination items is below 5
  (the error of the page list, after \<open>CURRENT_PAGE\<close> has been set), whatever the
  requested page is.
\<close>

theorem gotoPage_clamps:
  assumes "1 \<le> TOTAL_PAGES s"
  shows "CURRENT_PAGE (snd (gotoPage NaN scrollTo s)) = CURRENT_PAGE s
    \<and> CURRENT_PAGE (snd (gotoPage (Num p) scrollTo s)) = max 1 (min p (TOTAL_PAGES s))
    \<and> 1 \<le> CURRENT_PAGE (snd (gotoPage (Num p) scrollTo s))
    \<and> CURRENT_PAGE (snd (gotoPage (Num p) scrollTo s)) \<le> TOTAL_PAGES s
    \<and> CURRENT_PAGE (snd (gotoPage (Num 0) scrollTo s)) = 1
    \<and> CURRENT_PAGE (snd (gotoPage (Num (TOTAL_PAGES s + 5)) scrollTo s)) = TOTAL_PAGES s
    \<and> (fst (gotoPage page scrollTo s) = Inr ()) = (5 \<le> ui_numPaginationItems s)
    \<and> (fst (gotoPage page scrollTo s) = Inl InvalidArgument) = (ui_numPaginationItems s < 5)"
  using assms by (simp add: gotoPage_state gotoPage_outcome clampPage_def)

theorem gotoPage_clamps_witness:
  "1 \<le> TOTAL_PAGES (exampleVars 2 9)
   \<and> CURRENT_PAGE (snd (gotoPage NaN Top (exampleVars 2 9))) = 2
   \<and> CURRENT_PAGE (snd (gotoPage (Num 3) Top (exampleVars 2 9))) = 3
   \<and> CURRENT_PAGE (snd (gotoPage (Num 0) Top (exampleVars 2 9))) = 1
   \<and> CURRENT_PAGE (snd (gotoPage (Num 9) Top (exampleVars 2 9))) = 4
   \<and> fst (gotoPage (Num 9) Top (exampleVars 2 9)) = Inr ()"
proof -
  have h: "1 \<le> TOTAL_PAGES (exampleVars 2 9)" by (simp add: exampleVars_def)
  show ?thesis
    using gotoPage_clamps [OF h, of Top 3 "Num 9"] gotoPage_clamps [OF h, of Top 9 "Num 9"]
    by (simp add: exampleVars_def)
qed

text \<open>
  C9 (\<open>CURRENT_PAGE\<close> stays in range). From a state with \<open>TOTAL_PAGES \<ge> 1\<close> and
  \<open>CURRENT_PAGE\<close> in \<open>[1, TOTAL_PAGES]\<close>, each of \<^verbatim>\<open>gotoPage\<close>,
  \<^verbatim>\<open>gotoPageInputField\<close> and \<^verbatim>\<open>gotoLine\<close>, on any arguments, leaves
  \<open>TOTAL_PAGES\<close> as it was and \<open>CURRENT_PAGE\<close> in \<open>[1, TOTAL_PAGES]\<close>: it is
  the clamped page (or the old one), also in the state left by a call that raises. No
  argument makes an operation raise; the one error is that of the page list, for fewer
  than 5 pagination items.
\<close>

theorem navigation_keeps_CURRENT_PAGE_in_range:
  assumes "1 \<le> TOTAL_PAGES s" and "1 \<le> CURRENT_PAGE s" and "CURRENT_PAGE s \<le> TOTAL_PAGES s"
  shows "(let s' = snd (gotoPage page scrollTo s)
          in TOTAL_PAGES s' = TOTAL_PAGES s \<and> 1 \<le> CURRENT_PAGE s'
             \<and> CURRENT_PAGE s' \<le> TOTAL_PAGES s' \<and> CURRENT_PAGE s' = clampPage page s)
    \<and> (let s' = snd (gotoPageInputField parseInt e scrollTo s)
        in TOTAL_PAGES s' = TOTAL_PAGES s \<and> 1 \<le> CURRENT_PAGE s'
           \<and> CURRENT_PAGE s' \<le> TOTAL_PAGES s'
           \<and> CURRENT_PAGE s'
               = (if key e = ''Enter'' then clampPage (parseInt (target_value e)) s
                  else CURRENT_PAGE s))
    \<and> (let s' = snd (gotoLine lineNumber isTitle s)
        in TOTAL_PAGES s' = TOTAL_PAGES s \<and> 1 \<le> CURRENT_PAGE s'
           \<and> CURRENT_PAGE s' \<le> TOTAL_PAGES s'
           \<and> CURRENT_PAGE s'
               = clampPage (Num (needToGoPage (PAGE_BREAKS s) (TOTAL_PAGES s) lineNumber)) s)
    \<and> (\<forall>err. fst (gotoPage page scrollTo s) = Inl err
               \<or> fst (gotoPageInputField parseInt e scrollTo s) = Inl err
               \<or> fst (gotoLine lineNumber isTitle s) = Inl err
           \<longrightarrow> err = InvalidArgument \<and> ui_numPaginationItems s < 5)"
proof -
  note c = clampPage_in_range [OF assms]
  note n = needToGoPage_in_range [OF assms(1), of "PAGE_BREAKS s" lineNumber]
  have p: "let s' = snd (gotoPage page scrollTo s)
          in TOTAL_PAGES s' = TOTAL_PAGES s \<and> 1 \<le> CURRENT_PAGE s'
             \<and> CURRENT_PAGE s' \<le> TOTAL_PAGES s' \<and> CURRENT_PAGE s' = clampPage page s"
    using c [of page] by (simp add: gotoPage_state)
  have i: "let s' = snd (gotoPageInputField parseInt e scrollTo s)
        in TOTAL_PAGES s' = TOTAL_PAGES s \<and> 1 \<le> CURRENT_PAGE s'
           \<and> CURRENT_PAGE s' \<le> TOTAL_PAGES s'
           \<and> CURRENT_PAGE s'
               = (if key e = ''Enter'' then clampPage (parseInt (target_value e)) s
                  else CURRENT_PAGE s)"
    using c [of "parseInt (target_value e)"] assms
    by (simp add: gotoPageInputField_eq gotoPage_state)
  have l: "let s' = snd (gotoLine lineNumber isTitle s)
        in TOTAL_PAGES s' = TOTAL_PAGES s \<and> 1 \<le> CURRENT_PAGE s'
           \<and> CURRENT_PAGE s' \<le> TOTAL_PAGES s'
           \<and> CURRENT_PAGE s'
               = clampPage (Num (needToGoPage (PAGE_BREAKS s) (TOTAL_PAGES s) lineNumber)) s"
    unfolding clampPage_needToGoPage using n
    by (simp add: gotoLine_transition Let_def setHistory_def split: option.splits)
  have o: "err = InvalidArgument \<and> ui_numPaginationItems s < 5"
    if "fst (gotoPage page scrollTo s) = Inl err
        \<or> fst (gotoPageInputField parseInt e scrollTo s) = Inl err
        \<or> fst (gotoLine lineNumber isTitle s) = Inl err" for err
    using that
    by (cases err)
      (auto simp add: gotoPage_outcome gotoPageInputField_eq gotoLine_transition Let_def
        split: if_splits option.splits)
  show ?thesis
    using p i l o by blast
qed

theorem navigation_keeps_CURRENT_PAGE_in_range_witness:
  "1 \<le> TOTAL_PAGES (exampleVars 2 9) \<and> 1 \<le> CURRENT_PAGE (exampleVars 2 9)
   \<and> CURRENT_PAGE (exampleVars 2 9) \<le> TOTAL_PAGES (exampleVars 2 9)
   \<and> CURRENT_PAGE (snd (gotoPage (Num 77) Top (exampleVars 2 9))) = 4
   \<and> CURRENT_PAGE (snd (gotoPageInputField (\<lambda>text. Num (- 3))
        \<lparr>key = ''Enter'', target_value = ''-3''\<rparr> Top (exampleVars 2 9))) = 1
   \<and> CURRENT_PAGE (snd (gotoPageInputField (\<lambda>text. NaN)
        \<lparr>key = ''Enter'', target_value = ''abc''\<rparr> Top (exampleVars 2 9))) = 2
   \<and> CURRENT_PAGE (snd (gotoLine 1000 False (exampleVars 2 9))) = 4"
proof -
  let ?s = "exampleVars 2 9"
  have h: "1 \<le> TOTAL_PAGES ?s" "1 \<le> CURRENT_PAGE ?s" "CURRENT_PAGE ?s \<le> TOTAL_PAGES ?s"
    by (simp_all add: exampleVars_def)
  note t1 = navigation_keeps_CURRENT_PAGE_in_range [OF h, of "Num 77" Top "\<lambda>text. Num (- 3)"
        "\<lparr>key = ''Enter'', target_value = ''-3''\<rparr>" 1000 False]
  note t2 = navigation_keeps_CURRENT_PAGE_in_range [OF h, of "Num 77" Top "\<lambda>text. NaN"
        "\<lparr>key = ''Enter'', target_value = ''abc''\<rparr>" 1000 False]
  have c: "clampPage (Num 77) ?s = 4" "clampPage (Num (- 3)) ?s = 1" "clampPage NaN ?s = 2"
    "clampPage (Num (needToGoPage (PAGE_BREAKS ?s) (TOTAL_PAGES ?s) 1000)) ?s = 4"
    by (simp_all add: clampPage_def exampleVars_def needToGoPage_def)
  have "CURRENT_PAGE (snd (gotoPage (Num 77) Top ?s)) = 4"
    using t1 unfolding Let_def c by blast
  moreover have "CURRENT_PAGE (snd (gotoPageInputField (\<lambda>text. Num (- 3))
        \<lparr>key = ''Enter'', target_value = ''-3''\<rparr> Top ?s)) = 1"
    using t1 unfolding Let_def by (simp add: c)
  moreover have "CURRENT_PAGE (snd (gotoPageInputField (\<lambda>text. NaN)
        \<lparr>key = ''Enter'', target_value = ''abc''\<rparr> Top ?s)) = 2"
    using t2 unfolding Let_def by (simp add: c)
  moreover have "CURRENT_PAGE (snd (gotoLine 1000 False ?s)) = 4"
    using t1 unfolding Let_def c by blast
  ultimately show ?thesis using h by blast
qed

text \<open>
  C10 (\<^verbatim>\<open>gotoLine\<close> on a title). The claim has \<^verbatim>\<open>gotoLine\<close> with
  \<open>isTitle = true\<close> always return 0 and record the line. On a line of another page,
  with 4 pagination items, the call of \<^verbatim>\<open>gotoPage\<close> raises: no value is
  returned and nothing is recorded.
\<close>

theorem gotoLine_title_counterexample:
  "fst (gotoLine 30 True (exampleVars 1 4)) = Inl InvalidArgument
   \<and> fst (gotoLine 30 True (exampleVars 1 4)) \<noteq> Inr 0
   \<and> history (snd (gotoLine 30 True (exampleVars 1 4))) = []"
  by (simp add: gotoLine_transition exampleVars_def needToGoPage_def)

text \<open>
  C10, as the code has it. \<^verbatim>\<open>gotoLine\<close> with \<open>isTitle = true\<close> never
  returns \<open>-1\<close>; when the page change does not raise (the line is on the current
  page, or there are at least 5 pagination items) it returns 0 and appends
  \<open>(FILENAME, lineNumber)\<close> to the history. \<open>-1\<close> is returned only with
  \<open>isTitle = false\<close>, and then nothing is recorded.
\<close>

theorem gotoLine_title:
  "(needToGoPage (PAGE_BREAKS s) (TOTAL_PAGES s) lineNumber = CURRENT_PAGE s
      \<or> 5 \<le> ui_numPaginationItems s
    \<longrightarrow> fst (gotoLine lineNumber True s) = Inr 0
        \<and> history (snd (gotoLine lineNumber True s)) = history s @ [(FILENAME s, lineNumber)])
   \<and> fst (gotoLine lineNumber True s) \<noteq> Inr (- 1)
   \<and> (fst (gotoLine lineNumber isTitle s) = Inr (- 1)
        \<longrightarrow> \<not> isTitle \<and> history (snd (gotoLine lineNumber isTitle s)) = history s)"
  by (auto simp add: gotoLine_transition Let_def setHistory_def split: option.splits if_splits)

theorem gotoLine_title_witness:
  "5 \<le> ui_numPaginationItems (exampleVars 1 9)
   \<and> fst (gotoLine 30 True (exampleVars 1 9)) = Inr 0
   \<and> history (snd (gotoLine 30 True (exampleVars 1 9))) = [(''book.txt'', 30)]
   \<and> needToGoPage (PAGE_BREAKS (exampleVars 3 4)) (TOTAL_PAGES (exampleVars 3 4)) 30
       = CURRENT_PAGE (exampleVars 3 4)
   \<and> fst (gotoLine 30 True (exampleVars 3 4)) = Inr 0
   \<and> history (snd (gotoLine 30 True (exampleVars 3 4))) = [(''book.txt'', 30)]
   \<and> fst (gotoLine 30 False (exampleVars 1 9)) = Inr (- 1)
   \<and> history (snd (gotoLine 30 False (exampleVars 1 9))) = []"
proof -
  have h: "5 \<le> ui_numPaginationItems (exampleVars 1 9)" by (simp add: exampleVars_def)
  have n: "needToGoPage (PAGE_BREAKS (exampleVars 3 4)) (TOTAL_PAGES (exampleVars 3 4)) 30
       = CURRENT_PAGE (exampleVars 3 4)"
    by (simp add: exampleVars_def needToGoPage_def)
  have f: "fst (gotoLine 30 False (exampleVars 1 9)) = Inr (- 1)"
    by (simp add: gotoLine_transition exampleVars_def needToGoPage_def)
  have "fst (gotoLine 30 True (exampleVars 1 9)) = Inr 0
      \<and> history (snd (gotoLine 30 True (exampleVars 1 9))) = [(''book.txt'', 30)]"
    using gotoLine_title [of "exampleVars 1 9" 30 False] h by (simp add: exampleVars_def)
  moreover have "fst (gotoLine 30 True (exampleVars 3 4)) = Inr 0
      \<and> history (snd (gotoLine 30 True (exampleVars 3 4))) = [(''book.txt'', 30)]"
    using gotoLine_title [of "exampleVars 3 4" 30 False] n by (simp add: exampleVars_def)
  moreover have "history (snd (gotoLine 30 False (exampleVars 1 9))) = []"
    using gotoLine_title [of "exampleVars 1 9" 30 False] f by (simp add: exampleVars_def)
  ultimately show ?thesis using h n f by simp
qed

end
